theory Spec2Isabelle
  imports Main "HOL-Library.AList"
begin

section \<open>Program repository and execution manager (ProgramsManager.py)\<close>

text \<open>
  The development follows \<^verbatim>\<open>ProgramsManager.py\<close>. The manager talks to three
  collaborators whose code is not part of the sources at hand: the metadata store
  (\<^verbatim>\<open>niryo_robot_database.Program\<close>), the file store (\<^verbatim>\<open>ProgramsFileManager\<close>) and
  the script runner (\<^verbatim>\<open>PythonRunner\<close>). Their operations are modelled from the
  specification; every such definition says so.
\<close>

subsection \<open>Errors\<close>

text \<open>
  \<open>NotFound\<close>, \<open>AlreadyRunning\<close>, \<open>StorageFailure\<close> and \<open>LaunchFailure\<close> are the
  specification's error classes; \<open>KeyError\<close> is what Python's \<^verbatim>\<open>dict.pop(key)\<close>
  raises on a missing key.
\<close>

datatype error = NotFound | KeyError | AlreadyRunning | StorageFailure | LaunchFailure

subsection \<open>Data model\<close>

text \<open>A row of the metadata store. The field \<^verbatim>\<open>id\<close> of the source is \<open>program_id\<close>.\<close>

record db_program =
  program_id :: string
  name :: string
  description :: string
  saved_at :: string
  has_blockly :: bool

text \<open>\<^verbatim>\<open>ProgramDict\<close>: the row merged with the two bodies.\<close>

record program_dict = db_program +
  python_code :: string
  blockly_code :: string

subsection \<open>Metadata store\<close>

text \<open>
  Modelled from the spec: the class \<^verbatim>\<open>Program\<close> of \<^verbatim>\<open>niryo_robot_database\<close> is
  missing. The specification gives its interface as
  \<^verbatim>\<open>insert(id, name, description, has_visual)\<close>,
  \<^verbatim>\<open>update(id, name?, description?, has_visual?)\<close>, \<^verbatim>\<open>delete(id)\<close>,
  \<^verbatim>\<open>get_by_id(id) -> record | NotFound\<close>, \<^verbatim>\<open>get_all() -> [record]\<close>,
  \<^verbatim>\<open>exists(id) -> bool\<close>, and says that \<^verbatim>\<open>saved_at\<close> is the timestamp of the last
  metadata write. The store is the list of its rows; the clock reading of a write
  is the parameter \<open>now\<close>. Only \<^verbatim>\<open>get_by_id\<close> has an error result.
\<close>

definition db_get_all :: "db_program list \<Rightarrow> db_program list" where
  "db_get_all db = db"

definition db_exists :: "db_program list \<Rightarrow> string \<Rightarrow> bool" where
  "db_exists db i = (i \<in> set (map program_id db))"

definition db_get_by_id :: "db_program list \<Rightarrow> string \<Rightarrow> error + db_program" where
  "db_get_by_id db i =
     (case find (\<lambda>p. program_id p = i) db of
        None \<Rightarrow> Inl NotFound
      | Some p \<Rightarrow> Inr p)"

definition db_insert_program ::
  "db_program list \<Rightarrow> string \<Rightarrow> string \<Rightarrow> string \<Rightarrow> string \<Rightarrow> bool \<Rightarrow> db_program list" where
  "db_insert_program db now i nm descr hb =
     db @ [\<lparr>program_id = i, name = nm, description = descr, saved_at = now,
            has_blockly = hb\<rparr>]"

definition db_update_row ::
  "string \<Rightarrow> string option \<Rightarrow> string option \<Rightarrow> bool option \<Rightarrow> db_program \<Rightarrow> db_program" where
  "db_update_row now nm descr hb p =
     p\<lparr>name := (case nm of None \<Rightarrow> name p | Some n \<Rightarrow> n),
       description := (case descr of None \<Rightarrow> description p | Some d \<Rightarrow> d),
       saved_at := now,
       has_blockly := (case hb of None \<Rightarrow> has_blockly p | Some b \<Rightarrow> b)\<rparr>"

definition db_update_program ::
  "db_program list \<Rightarrow> string \<Rightarrow> string \<Rightarrow> string option \<Rightarrow> string option \<Rightarrow> bool option
     \<Rightarrow> db_program list" where
  "db_update_program db now i nm descr hb =
     map (\<lambda>p. if program_id p = i then db_update_row now nm descr hb p else p) db"

definition db_delete_program :: "db_program list \<Rightarrow> string \<Rightarrow> db_program list" where
  "db_delete_program db i = filter (\<lambda>p. program_id p \<noteq> i) db"

subsection \<open>File store\<close>

text \<open>
  Modelled from the spec: the class \<^verbatim>\<open>ProgramsFileManager\<close> is missing. The
  specification gives \<^verbatim>\<open>create(id, body)\<close>, \<^verbatim>\<open>edit(id, body)\<close>, \<^verbatim>\<open>remove(id)\<close>,
  \<^verbatim>\<open>read(id) -> body\<close>, \<^verbatim>\<open>exists(id) -> bool\<close>, \<^verbatim>\<open>list_ids() -> [id]\<close>, each
  operating on exactly one file named by id under the store's root, and a scoped
  temporary body kept outside the managed id space. A store is its directory
  (file name without extension, body) together with its temporary files.
  \<^verbatim>\<open>create\<close> and \<^verbatim>\<open>edit\<close> write the body to the file of that id, whether or not
  the file is there already (the specification gives \<^verbatim>\<open>edit\<close> no failure for a
  missing file, and an update may add a visual body to a program that had none).
  A write may fail: the specification has a file write fail after the metadata
  write, with \<open>StorageFailure\<close>, and the row then lacks its file. Whether a write
  succeeds is decided outside the program and is the parameter \<open>ok\<close>; a write that
  fails leaves the store as it was. \<^verbatim>\<open>read\<close> and \<^verbatim>\<open>remove\<close> of a file that is absent
  fail with \<open>NotFound\<close> (the specification's class for a referenced program id
  that is absent).
\<close>

record programs_file_manager =
  files :: "(string \<times> string) list"
  temporary_files :: "(string \<times> string) list"

definition file_get_all_names :: "programs_file_manager \<Rightarrow> string list" where
  "file_get_all_names fm = map fst (files fm)"

definition file_exists :: "programs_file_manager \<Rightarrow> string \<Rightarrow> bool" where
  "file_exists fm n = (n \<in> set (map fst (files fm)))"

definition file_get_file_path :: "programs_file_manager \<Rightarrow> string \<Rightarrow> string" where
  "file_get_file_path fm n = n"

definition file_read :: "programs_file_manager \<Rightarrow> string \<Rightarrow> error + string" where
  "file_read fm n =
     (case map_of (files fm) n of
        None \<Rightarrow> Inl NotFound
      | Some body \<Rightarrow> Inr body)"

definition file_create ::
  "programs_file_manager \<Rightarrow> string \<Rightarrow> string \<Rightarrow> bool \<Rightarrow> error + programs_file_manager" where
  "file_create fm n body ok =
     (if ok then Inr (fm\<lparr>files := AList.update n body (files fm)\<rparr>)
      else Inl StorageFailure)"

definition file_edit ::
  "programs_file_manager \<Rightarrow> string \<Rightarrow> string \<Rightarrow> bool \<Rightarrow> error + programs_file_manager" where
  "file_edit fm n body ok =
     (if ok then Inr (fm\<lparr>files := AList.update n body (files fm)\<rparr>)
      else Inl StorageFailure)"

definition file_remove :: "programs_file_manager \<Rightarrow> string \<Rightarrow> error + programs_file_manager" where
  "file_remove fm n =
     (if file_exists fm n then Inr (fm\<lparr>files := AList.delete n (files fm)\<rparr>)
      else Inl NotFound)"

text \<open>
  Modelled from the spec: \<^verbatim>\<open>temporary_file\<close> (the specification's
  \<^verbatim>\<open>scoped_temporary\<close>) creates a body file outside the managed id space when the
  scope is entered and deletes it on every exit path when the scope closes. The
  name the facility picks is the parameter \<open>tmp\<close>.
\<close>

definition temporary_file_enter ::
  "programs_file_manager \<Rightarrow> string \<Rightarrow> string \<Rightarrow> programs_file_manager" where
  "temporary_file_enter fm tmp body =
     fm\<lparr>temporary_files := AList.update tmp body (temporary_files fm)\<rparr>"

definition temporary_file_exit :: "programs_file_manager \<Rightarrow> string \<Rightarrow> programs_file_manager" where
  "temporary_file_exit fm tmp =
     fm\<lparr>temporary_files := AList.delete tmp (temporary_files fm)\<rparr>"

definition temporary_file_present :: "programs_file_manager \<Rightarrow> string \<Rightarrow> bool" where
  "temporary_file_present fm tmp = (tmp \<in> set (map fst (temporary_files fm)))"

subsection \<open>Script runner\<close>

text \<open>
  The fields of \<^verbatim>\<open>PythonRunner\<close> that the manager reads: \<^verbatim>\<open>is_running\<close>,
  \<^verbatim>\<open>exit_status\<close> (\<^verbatim>\<open>None\<close> before any run) and \<^verbatim>\<open>output\<close> (here \<open>output_text\<close>).
\<close>

record python_runner =
  is_running :: bool
  exit_status :: "int option"
  output_text :: string

text \<open>
  Modelled from the spec: the class \<^verbatim>\<open>PythonRunner\<close> is missing. By the
  specification \<^verbatim>\<open>start(body_path)\<close> fails with \<open>AlreadyRunning\<close> while a session
  is running; otherwise the session of the last run is reset, an execution
  context is spawned and the runner is running. A body that does not launch is
  reported as failed with a synthetic non-zero exit status. Whether the body
  launches is the parameter \<open>launches\<close>.

  The manager runs \<^verbatim>\<open>start\<close> as the target of a daemon thread and meanwhile polls
  \<^verbatim>\<open>is_running\<close> and \<^verbatim>\<open>exit_status\<close> (\<^verbatim>\<open>__execute\<close>): that is the use of a call
  that lasts as long as the body runs. The call is therefore in two parts:
  \<open>runner_start\<close> is its entry, up to the launch of the body; it returns once the
  body has terminated, which is a place of the thread further down.
\<close>

definition launch_failure_status :: int where
  "launch_failure_status = 1"

definition runner_start :: "python_runner \<Rightarrow> bool \<Rightarrow> (error + unit) \<times> python_runner" where
  "runner_start r launches =
     (if is_running r then (Inl AlreadyRunning, r)
      else if launches then
        (Inr (), \<lparr>is_running = True, exit_status = None, output_text = ''''\<rparr>)
      else
        (Inl LaunchFailure,
         \<lparr>is_running = False, exit_status = Some launch_failure_status, output_text = ''''\<rparr>))"

text \<open>
  Modelled from the spec: \<^verbatim>\<open>exit_status\<close> is set when the execution context
  terminates, by any path; the running flag is true only while it runs.
\<close>

definition runner_process_exit :: "python_runner \<Rightarrow> int \<Rightarrow> python_runner" where
  "runner_process_exit r code =
     (if is_running r then r\<lparr>is_running := False, exit_status := Some code\<rparr> else r)"

text \<open>
  Modelled from the spec: \<^verbatim>\<open>stop()\<close> does nothing when nothing runs; otherwise the
  context is terminated and a non-zero exit status is recorded.
\<close>

definition cancelled_status :: int where
  "cancelled_status = - 15"

definition runner_stop :: "python_runner \<Rightarrow> python_runner" where
  "runner_stop r = runner_process_exit r cancelled_status"

subsection \<open>The manager\<close>

record manager =
  database :: "db_program list"
  python_manager :: programs_file_manager
  blockly_manager :: programs_file_manager
  programs :: "(string \<times> program_dict) list"
  python_runner :: python_runner

subsubsection \<open>Reading\<close>

definition exists_program :: "manager \<Rightarrow> string \<Rightarrow> bool" where
  "exists_program s i = (db_exists (database s) i \<and> file_exists (python_manager s) i)"

definition merged :: "db_program \<Rightarrow> string \<Rightarrow> string \<Rightarrow> program_dict" where
  "merged p py bl =
     \<lparr>program_id = program_id p, name = name p, description = description p,
      saved_at = saved_at p, has_blockly = has_blockly p,
      python_code = py, blockly_code = bl\<rparr>"

definition get :: "manager \<Rightarrow> string \<Rightarrow> error + program_dict" where
  "get s i =
     (case db_get_by_id (database s) i of
        Inl e \<Rightarrow> Inl e
      | Inr p \<Rightarrow>
          (case file_read (python_manager s) i of
             Inl e \<Rightarrow> Inl e
           | Inr py \<Rightarrow>
               if has_blockly p then
                 (case file_read (blockly_manager s) i of
                    Inl e \<Rightarrow> Inl e
                  | Inr bl \<Rightarrow> Inr (merged p py bl))
               else Inr (merged p py '''')))"

fun get_each :: "manager \<Rightarrow> db_program list \<Rightarrow> error + program_dict list" where
  "get_each s [] = Inr []"
| "get_each s (p # ps) =
     (case get s (program_id p) of
        Inl e \<Rightarrow> Inl e
      | Inr d \<Rightarrow> (case get_each s ps of Inl e \<Rightarrow> Inl e | Inr ds \<Rightarrow> Inr (d # ds)))"

definition get_all :: "manager \<Rightarrow> error + program_dict list" where
  "get_all s = get_each s (db_get_all (database s))"

subsubsection \<open>Reconciliation\<close>

text \<open>
  \<^verbatim>\<open>__sync_db_with_system\<close>. Each \<^verbatim>\<open>rospy.logwarn\<close> of the source goes with one
  repair; the model returns the repairs in the order they are logged. The first
  loop runs over the rows read at the start and writes to the live store; the
  second runs over the script files and tests them against the ids read at the
  start.
\<close>

datatype repair = Removed string | Downgraded string | Adopted string

fun check_db_programs ::
  "string \<Rightarrow> string list \<Rightarrow> string list \<Rightarrow> db_program list \<Rightarrow> db_program list
     \<Rightarrow> repair list \<times> db_program list" where
  "check_db_programs now python_programs blockly_programs [] db = ([], db)"
| "check_db_programs now python_programs blockly_programs (p # ps) db =
     (if program_id p \<notin> set python_programs then
        (case check_db_programs now python_programs blockly_programs ps
                (db_delete_program db (program_id p)) of
           (log, db') \<Rightarrow> (Removed (program_id p) # log, db'))
      else if has_blockly p \<and> program_id p \<notin> set blockly_programs then
        (case check_db_programs now python_programs blockly_programs ps
                (db_update_program db now (program_id p) None None (Some False)) of
           (log, db') \<Rightarrow> (Downgraded (program_id p) # log, db'))
      else check_db_programs now python_programs blockly_programs ps db)"

fun adopt_python_programs ::
  "string \<Rightarrow> string list \<Rightarrow> string list \<Rightarrow> string list \<Rightarrow> db_program list
     \<Rightarrow> repair list \<times> db_program list" where
  "adopt_python_programs now db_programs_ids blockly_programs [] db = ([], db)"
| "adopt_python_programs now db_programs_ids blockly_programs (n # ns) db =
     (if n \<notin> set db_programs_ids then
        (case adopt_python_programs now db_programs_ids blockly_programs ns
                (db_insert_program db now n n ''Unknown program'' (n \<in> set blockly_programs)) of
           (log, db') \<Rightarrow> (Adopted n # log, db'))
      else adopt_python_programs now db_programs_ids blockly_programs ns db)"

definition sync_db_with_system :: "string \<Rightarrow> manager \<Rightarrow> repair list \<times> manager" where
  "sync_db_with_system now s =
     (let db_programs = db_get_all (database s);
          python_programs = file_get_all_names (python_manager s);
          blockly_programs = file_get_all_names (blockly_manager s)
      in case check_db_programs now python_programs blockly_programs db_programs (database s) of
           (log1, db1) \<Rightarrow>
             (case adopt_python_programs now (map program_id db_programs) blockly_programs
                     python_programs db1 of
                (log2, db2) \<Rightarrow> (log1 @ log2, s\<lparr>database := db2\<rparr>)))"

subsubsection \<open>Program handling\<close>

text \<open>
  \<^verbatim>\<open>create_program\<close>. The identifier drawn from \<^verbatim>\<open>uuid4()\<close> is the parameter
  \<open>uuid\<close>; \<open>py_ok\<close> and \<open>bl_ok\<close> say whether the write of the script file and of
  the visual file succeed. A step that fails ends the call and leaves the writes
  made before it in place: the source has no rollback.
\<close>

definition create_program ::
  "manager \<Rightarrow> string \<Rightarrow> string \<Rightarrow> string \<Rightarrow> string \<Rightarrow> string \<Rightarrow> string \<Rightarrow> bool \<Rightarrow> bool
     \<Rightarrow> (error + string) \<times> manager" where
  "create_program s now uuid nm descr py bl py_ok bl_ok =
     (let hb = (bl \<noteq> '''');
          s1 = s\<lparr>database := db_insert_program (database s) now uuid nm descr hb\<rparr>
      in case file_create (python_manager s1) uuid py py_ok of
           Inl e \<Rightarrow> (Inl e, s1)
         | Inr fm \<Rightarrow>
             (let s2 = s1\<lparr>python_manager := fm\<rparr>
              in case (if hb then
                         (case file_create (blockly_manager s2) uuid bl bl_ok of
                            Inl e \<Rightarrow> Inl e
                          | Inr fm' \<Rightarrow> Inr (s2\<lparr>blockly_manager := fm'\<rparr>))
                       else Inr s2) of
                   Inl e \<Rightarrow> (Inl e, s2)
                 | Inr s3 \<Rightarrow>
                     (case get s3 uuid of
                        Inl e \<Rightarrow> (Inl e, s3)
                      | Inr d \<Rightarrow>
                          (Inr uuid, s3\<lparr>programs := AList.update uuid d (programs s3)\<rparr>))))"

definition delete_program :: "manager \<Rightarrow> string \<Rightarrow> (error + unit) \<times> manager" where
  "delete_program s i =
     (let s1 = s\<lparr>database := db_delete_program (database s) i\<rparr>
      in case file_remove (python_manager s1) i of
           Inl e \<Rightarrow> (Inl e, s1)
         | Inr fm \<Rightarrow>
             (let s2 = s1\<lparr>python_manager := fm\<rparr>
              in case map_of (programs s2) i of
                   None \<Rightarrow> (Inl KeyError, s2)
                 | Some program \<Rightarrow>
                     (let s3 = s2\<lparr>programs := AList.delete i (programs s2)\<rparr>
                      in if has_blockly program then
                           (case file_remove (blockly_manager s3) i of
                              Inl e \<Rightarrow> (Inl e, s3)
                            | Inr fm' \<Rightarrow> (Inr (), s3\<lparr>blockly_manager := fm'\<rparr>))
                         else (Inr (), s3))))"

text \<open>
  \<^verbatim>\<open>update_program\<close>, with \<open>py_ok\<close> and \<open>bl_ok\<close> as in \<^verbatim>\<open>create_program\<close>. The
  source does not test that the program exists; the first statement that needs
  it to is \<^verbatim>\<open>self.__programs.pop(program_id)\<close>, after the writes. The \<^verbatim>\<open>pop\<close>
  followed by the assignment moves the entry to the end of the dictionary.
\<close>

definition update_program ::
  "manager \<Rightarrow> string \<Rightarrow> string \<Rightarrow> string \<Rightarrow> string \<Rightarrow> string \<Rightarrow> string \<Rightarrow> bool \<Rightarrow> bool
     \<Rightarrow> (error + unit) \<times> manager" where
  "update_program s now i nm descr py bl py_ok bl_ok =
     (let hb = (bl \<noteq> '''');
          s1 = s\<lparr>database := db_update_program (database s) now i (Some nm) (Some descr) (Some hb)\<rparr>
      in case file_edit (python_manager s1) i py py_ok of
           Inl e \<Rightarrow> (Inl e, s1)
         | Inr fm \<Rightarrow>
             (let s2 = s1\<lparr>python_manager := fm\<rparr>
              in case (if hb then
                         (case file_edit (blockly_manager s2) i bl bl_ok of
                            Inl e \<Rightarrow> Inl e
                          | Inr fm' \<Rightarrow> Inr (s2\<lparr>blockly_manager := fm'\<rparr>))
                       else Inr s2) of
                   Inl e \<Rightarrow> (Inl e, s2)
                 | Inr s3 \<Rightarrow>
                     (case map_of (programs s3) i of
                        None \<Rightarrow> (Inl KeyError, s3)
                      | Some old \<Rightarrow>
                          (let s4 = s3\<lparr>programs := AList.delete i (programs s3)\<rparr>
                           in case get s4 i of
                                Inl e \<Rightarrow> (Inl e, s4)
                              | Inr d \<Rightarrow>
                                  (Inr (), s4\<lparr>programs := AList.update i d (programs s4)\<rparr>)))))"

definition init ::
  "string \<Rightarrow> db_program list \<Rightarrow> programs_file_manager \<Rightarrow> programs_file_manager
     \<Rightarrow> error + manager" where
  "init now db py bl =
     (let s0 = \<lparr>database = db, python_manager = py, blockly_manager = bl, programs = [],
                python_runner = \<lparr>is_running = False, exit_status = None, output_text = ''''\<rparr>\<rparr>;
          s1 = snd (sync_db_with_system now s0)
      in case get_all s1 of
           Inl e \<Rightarrow> Inl e
         | Inr ds \<Rightarrow>
             Inr (s1\<lparr>programs := fold (\<lambda>d. AList.update (program_id d) d) ds []\<rparr>))"

subsubsection \<open>Program executions\<close>

definition execution_output :: "manager \<Rightarrow> string" where
  "execution_output s = output_text (python_runner s)"

definition execution_is_running :: "manager \<Rightarrow> bool" where
  "execution_is_running s = is_running (python_runner s)"

definition execution_is_success :: "manager \<Rightarrow> bool" where
  "execution_is_success s = (exit_status (python_runner s) = Some 0)"

definition stop_execution :: "manager \<Rightarrow> manager" where
  "stop_execution s = s\<lparr>python_runner := runner_stop (python_runner s)\<rparr>"

text \<open>
  \<^verbatim>\<open>__execute\<close> hands its argument to a daemon thread and polls the runner. The
  thread and the caller run interleaved, so a call is a small transition system:
  its state is the manager, the place the thread has reached, and whether the
  caller has returned. A path is a file of the script store or a temporary file.
\<close>

datatype path = Program_file string | Temporary_file string

definition path_present :: "manager \<Rightarrow> path \<Rightarrow> bool" where
  "path_present s p =
     (case p of
        Program_file n \<Rightarrow> file_exists (python_manager s) n
      | Temporary_file t \<Rightarrow> temporary_file_present (python_manager s) t)"

text \<open>
  The places of the thread. \<open>Start_pending\<close>: the target is \<^verbatim>\<open>runner.start\<close> with a
  program path (\<^verbatim>\<open>execute_from_id\<close>), not yet called. \<open>Start_running\<close>: inside that
  call, the body launched. \<open>With_pending\<close>: the target is
  \<^verbatim>\<open>execute_with_context\<close>, not yet entered. \<open>With_entered\<close>: inside the
  \<^verbatim>\<open>with\<close> block, the temporary file written, \<^verbatim>\<open>runner.start\<close> not yet called.
  \<open>With_running\<close>: inside \<^verbatim>\<open>runner.start\<close> inside the block, the body launched.
  \<open>With_leaving\<close>: \<^verbatim>\<open>runner.start\<close> has returned or raised, the block is about to
  close. \<open>Ended\<close>: the thread is over, with the exception that escaped its target,
  if any; Python does not hand that exception to the thread that started it.
\<close>

datatype thread =
    Start_pending path
  | Start_running
  | With_pending string string
  | With_entered string
  | With_running string
  | With_leaving string "error option"
  | Ended "error option"

definition start_at :: "manager \<Rightarrow> path \<Rightarrow> (error + unit) \<times> manager" where
  "start_at s p =
     (case runner_start (python_runner s) (path_present s p) of
        (res, r) \<Rightarrow> (res, s\<lparr>python_runner := r\<rparr>))"

text \<open>
  One step of the thread. A thread inside \<^verbatim>\<open>runner.start\<close> stays there while the
  body runs and leaves once it has terminated.
\<close>

fun thread_step :: "thread \<Rightarrow> manager \<Rightarrow> thread \<times> manager" where
  "thread_step (Start_pending p) s =
     (case start_at s p of
        (Inl e, s') \<Rightarrow> (Ended (Some e), s')
      | (Inr u, s') \<Rightarrow> (Start_running, s'))"
| "thread_step Start_running s =
     (if is_running (python_runner s) then (Start_running, s) else (Ended None, s))"
| "thread_step (With_pending tmp code) s =
     (With_entered tmp,
      s\<lparr>python_manager := temporary_file_enter (python_manager s) tmp code\<rparr>)"
| "thread_step (With_entered tmp) s =
     (case start_at s (Temporary_file tmp) of
        (Inl e, s') \<Rightarrow> (With_leaving tmp (Some e), s')
      | (Inr u, s') \<Rightarrow> (With_running tmp, s'))"
| "thread_step (With_running tmp) s =
     (if is_running (python_runner s) then (With_running tmp, s) else (With_leaving tmp None, s))"
| "thread_step (With_leaving tmp e) s =
     (Ended e, s\<lparr>python_manager := temporary_file_exit (python_manager s) tmp\<rparr>)"
| "thread_step (Ended e) s = (Ended e, s)"

record execution =
  manager_state :: manager
  thread :: thread
  returned :: bool

text \<open>
  What happens next is an event: the thread takes its next step, the caller
  evaluates the condition of its \<^verbatim>\<open>while\<close> loop once (and sleeps or returns), or
  the running body terminates with an exit code (by itself, by a crash, or
  because it was stopped).
\<close>

datatype event = Thread_runs | Caller_polls | Process_exits int

fun step :: "execution \<Rightarrow> event \<Rightarrow> execution" where
  "step c Thread_runs =
     (case thread_step (thread c) (manager_state c) of
        (th, s) \<Rightarrow> c\<lparr>manager_state := s, thread := th\<rparr>)"
| "step c Caller_polls =
     (if returned c then c
      else if \<not> execution_is_running (manager_state c)
              \<and> exit_status (python_runner (manager_state c)) = None
        then c
      else c\<lparr>returned := True\<rparr>)"
| "step c (Process_exits code) =
     c\<lparr>manager_state := (manager_state c)
          \<lparr>python_runner := runner_process_exit (python_runner (manager_state c)) code\<rparr>\<rparr>"

definition run :: "execution \<Rightarrow> event list \<Rightarrow> execution" where
  "run c evs = foldl step c evs"

text \<open>\<^verbatim>\<open>__execute\<close> up to the start of the thread; the loop is the \<open>Caller_polls\<close> events.\<close>

definition execute :: "manager \<Rightarrow> thread \<Rightarrow> execution" where
  "execute s th = \<lparr>manager_state = s, thread = th, returned = False\<rparr>"

definition execute_from_id :: "manager \<Rightarrow> string \<Rightarrow> execution" where
  "execute_from_id s i =
     execute s (Start_pending (Program_file (file_get_file_path (python_manager s) i)))"

definition execute_from_code :: "manager \<Rightarrow> string \<Rightarrow> string \<Rightarrow> execution" where
  "execute_from_code s tmp code = execute s (With_pending tmp code)"

text \<open>
  What the caller of \<^verbatim>\<open>execute_from_id\<close> or \<^verbatim>\<open>execute_from_code\<close> gets: nothing
  while it waits, then a plain return. No statement of \<^verbatim>\<open>__execute\<close> raises in
  the caller.
\<close>

definition call_result :: "execution \<Rightarrow> (error + unit) option" where
  "call_result c = (if returned c then Some (Inr ()) else None)"

text \<open>The thread has made its call of \<^verbatim>\<open>runner.start\<close>.\<close>

fun start_called :: "thread \<Rightarrow> bool" where
  "start_called (Start_pending p) = False"
| "start_called Start_running = True"
| "start_called (With_pending tmp code) = False"
| "start_called (With_entered tmp) = False"
| "start_called (With_running tmp) = True"
| "start_called (With_leaving tmp e) = True"
| "start_called (Ended e) = True"

section \<open>Properties\<close>

subsection \<open>Notions used in the statements\<close>

text \<open>Invariant I1: every row of the metadata store has a script file.\<close>

definition I1 :: "manager \<Rightarrow> bool" where
  "I1 s = (\<forall>p \<in> set (database s). file_exists (python_manager s) (program_id p))"

text \<open>The write \<^verbatim>\<open>update_program(id, has_blockly=False)\<close> on one row.\<close>

definition downgrade :: "string \<Rightarrow> db_program \<Rightarrow> db_program" where
  "downgrade now = db_update_row now None None (Some False)"

text \<open>
  The ids the first loop deletes and the ids it downgrades, for the rows \<open>ps\<close> it still
  has to visit.
\<close>

definition to_remove :: "string list \<Rightarrow> db_program list \<Rightarrow> string \<Rightarrow> bool" where
  "to_remove py ps i = (i \<in> set (map program_id ps) \<and> i \<notin> set py)"

definition to_downgrade :: "string list \<Rightarrow> string list \<Rightarrow> db_program list \<Rightarrow> string \<Rightarrow> bool" where
  "to_downgrade py bl ps i =
     (i \<in> set (map program_id (filter has_blockly ps)) \<and> i \<in> set py \<and> i \<notin> set bl)"

text \<open>The row inserted for a script file without one.\<close>

definition adopted :: "string \<Rightarrow> string list \<Rightarrow> string \<Rightarrow> db_program" where
  "adopted now bl n =
     \<lparr>program_id = n, name = n, description = ''Unknown program'', saved_at = now,
      has_blockly = (n \<in> set bl)\<rparr>"

text \<open>The store after the pass: the rows that are kept, then the rows that are adopted.\<close>

definition kept_rows :: "string \<Rightarrow> manager \<Rightarrow> db_program list" where
  "kept_rows now s =
     map (\<lambda>q. if to_downgrade (file_get_all_names (python_manager s))
                      (file_get_all_names (blockly_manager s)) (database s) (program_id q)
               then downgrade now q else q)
         (filter (\<lambda>q. \<not> to_remove (file_get_all_names (python_manager s)) (database s)
                            (program_id q)) (database s))"

definition adopted_rows :: "string \<Rightarrow> manager \<Rightarrow> db_program list" where
  "adopted_rows now s =
     map (adopted now (file_get_all_names (blockly_manager s)))
         (filter (\<lambda>n. n \<notin> set (map program_id (database s)))
            (file_get_all_names (python_manager s)))"

text \<open>
  The thread has called \<^verbatim>\<open>runner.start\<close> and the call was refused with
  \<open>AlreadyRunning\<close>.
\<close>

fun rejected :: "thread \<Rightarrow> bool" where
  "rejected (With_leaving tmp e) = (e = Some AlreadyRunning)"
| "rejected (Ended e) = (e = Some AlreadyRunning)"
| "rejected th = False"



text \<open>A schedule in which no body terminates: only thread steps and polls of the caller.\<close>

definition polls_and_thread_steps :: "event list \<Rightarrow> bool" where
  "polls_and_thread_steps evs = list_all (\<lambda>e. e = Thread_runs \<or> e = Caller_polls) evs"

subsection \<open>Example states\<close>

definition idle_runner :: python_runner where
  "idle_runner = \<lparr>is_running = False, exit_status = None, output_text = ''''\<rparr>"

text \<open>
  Stores that have drifted apart: row \<open>a\<close> is marked visual without a visual file,
  row \<open>b\<close> has no script file, script file \<open>c\<close> has no row.
\<close>

definition diverged_manager :: manager where
  "diverged_manager =
     \<lparr>database =
        [\<lparr>program_id = ''a'', name = ''pick'', description = ''pick and place'',
          saved_at = ''t0'', has_blockly = True\<rparr>,
         \<lparr>program_id = ''b'', name = ''wave'', description = ''wave the arm'',
          saved_at = ''t0'', has_blockly = False\<rparr>],
      python_manager = \<lparr>files = [(''a'', ''print(1)''), (''c'', ''print(3)'')],
                         temporary_files = []\<rparr>,
      blockly_manager = \<lparr>files = [(''c'', ''<xml/>'')], temporary_files = []\<rparr>,
      programs = [],
      python_runner = idle_runner\<rparr>"

text \<open>A manager with one program that has both bodies.\<close>

definition settled_manager :: manager where
  "settled_manager =
     \<lparr>database =
        [\<lparr>program_id = ''a'', name = ''pick'', description = ''pick and place'',
          saved_at = ''t0'', has_blockly = True\<rparr>],
      python_manager = \<lparr>files = [(''a'', ''print(1)'')], temporary_files = []\<rparr>,
      blockly_manager = \<lparr>files = [(''a'', ''<xml/>'')], temporary_files = []\<rparr>,
      programs =
        [(''a'', \<lparr>program_id = ''a'', name = ''pick'', description = ''pick and place'',
                  saved_at = ''t0'', has_blockly = True, python_code = ''print(1)'',
                  blockly_code = ''<xml/>''\<rparr>)],
      python_runner = idle_runner\<rparr>"

text \<open>The manager of the example while a body runs, and after a body has ended with status 0.\<close>

definition running_manager :: manager where
  "running_manager =
     settled_manager\<lparr>python_runner :=
       \<lparr>is_running = True, exit_status = None, output_text = ''hello''\<rparr>\<rparr>"

definition finished_manager :: manager where
  "finished_manager =
     settled_manager\<lparr>python_runner :=
       \<lparr>is_running = False, exit_status = Some 0, output_text = ''hello''\<rparr>\<rparr>"

subsection \<open>The reconciliation pass in closed form\<close>

lemma downgrade_twice [simp]: "downgrade now (downgrade now q) = downgrade now q"
  by (simp add: downgrade_def db_update_row_def)

lemma program_id_downgrade [simp]: "program_id (downgrade now q) = program_id q"
  by (simp add: downgrade_def db_update_row_def)

lemma db_update_program_downgrade:
  "db_update_program db now i None None (Some False) =
     map (\<lambda>q. if program_id q = i then downgrade now q else q) db"
  by (simp add: db_update_program_def downgrade_def)

lemma map_filter_map_ids:
  assumes "\<And>q. program_id (g q) = program_id q"
  shows "map F (filter (\<lambda>q. P (program_id q)) (map g db)) =
         map (\<lambda>q. F (g q)) (filter (\<lambda>q. P (program_id q)) db)"
  by (induction db) (simp_all add: assms)

lemma check_db_programs_db:
  "snd (check_db_programs now py bl ps db) =
     map (\<lambda>q. if to_downgrade py bl ps (program_id q) then downgrade now q else q)
         (filter (\<lambda>q. \<not> to_remove py ps (program_id q)) db)"
proof (induction ps arbitrary: db)
  case Nil
  then show ?case by (simp add: to_remove_def to_downgrade_def)
next
  case (Cons p ps)
  show ?case
  proof (cases "program_id p \<notin> set py")
    case True
    have f: "filter (\<lambda>q. \<not> to_remove py ps (program_id q)) (db_delete_program db (program_id p))
           = filter (\<lambda>q. \<not> to_remove py (p # ps) (program_id q)) db"
      using True unfolding db_delete_program_def filter_filter
      by (intro filter_cong refl) (auto simp: to_remove_def)
    have g: "to_downgrade py bl (p # ps) = to_downgrade py bl ps"
      using True by (auto simp: to_downgrade_def fun_eq_iff)
    show ?thesis
      using True Cons.IH [of "db_delete_program db (program_id p)"]
      by (simp add: split_def f g)
  next
    case inpy: False
    have f: "to_remove py (p # ps) = to_remove py ps"
      using inpy by (auto simp: to_remove_def fun_eq_iff)
    show ?thesis
    proof (cases "has_blockly p \<and> program_id p \<notin> set bl")
      case True
      have g: "\<And>i. to_downgrade py bl (p # ps) i = (i = program_id p \<or> to_downgrade py bl ps i)"
        using True inpy by (auto simp: to_downgrade_def)
      have h: "map (\<lambda>q. if to_downgrade py bl ps (program_id q) then downgrade now q else q)
                 (filter (\<lambda>q. \<not> to_remove py ps (program_id q))
                    (map (\<lambda>q. if program_id q = program_id p then downgrade now q else q) db))
             = map (\<lambda>q. if to_downgrade py bl (p # ps) (program_id q) then downgrade now q else q)
                 (filter (\<lambda>q. \<not> to_remove py ps (program_id q)) db)"
        by (subst map_filter_map_ids) (auto simp: g)
      show ?thesis
        using True inpy Cons.IH [of "db_update_program db now (program_id p) None None (Some False)"]
        by (simp add: split_def f h db_update_program_downgrade)
    next
      case False
      have g: "to_downgrade py bl (p # ps) = to_downgrade py bl ps"
        using False inpy by (auto simp: to_downgrade_def fun_eq_iff)
      show ?thesis
        using False inpy Cons.IH [of db]
        by (cases "has_blockly p") (simp_all add: split_def f g)
    qed
  qed
qed

lemma check_db_programs_log:
  "fst (check_db_programs now py bl ps db) =
     concat (map (\<lambda>p. if program_id p \<notin> set py then [Removed (program_id p)]
                      else if has_blockly p \<and> program_id p \<notin> set bl
                           then [Downgraded (program_id p)] else []) ps)"
  by (induction ps arbitrary: db) (simp_all add: split_def)

lemma adopt_python_programs_eq:
  "adopt_python_programs now ids bl ns db =
     (map Adopted (filter (\<lambda>n. n \<notin> set ids) ns),
      db @ map (adopted now bl) (filter (\<lambda>n. n \<notin> set ids) ns))"
  by (induction ns arbitrary: db) (simp_all add: db_insert_program_def adopted_def)

lemma sync_state:
  "snd (sync_db_with_system now s) = s\<lparr>database := kept_rows now s @ adopted_rows now s\<rparr>"
  using check_db_programs_db [of now "file_get_all_names (python_manager s)"
          "file_get_all_names (blockly_manager s)" "database s" "database s"]
  by (simp add: sync_db_with_system_def db_get_all_def split_def adopt_python_programs_eq
        kept_rows_def adopted_rows_def Let_def)

lemma sync_log:
  "fst (sync_db_with_system now s) =
     concat (map (\<lambda>p. if program_id p \<notin> set (file_get_all_names (python_manager s))
                      then [Removed (program_id p)]
                      else if has_blockly p
                              \<and> program_id p \<notin> set (file_get_all_names (blockly_manager s))
                           then [Downgraded (program_id p)] else []) (database s))
     @ map Adopted (filter (\<lambda>n. n \<notin> set (map program_id (database s)))
                      (file_get_all_names (python_manager s)))"
  by (simp add: sync_db_with_system_def db_get_all_def split_def adopt_python_programs_eq
        check_db_programs_log Let_def)

lemma kept_rows_ids:
  "q \<in> set (kept_rows now s) \<Longrightarrow> program_id q \<in> set (file_get_all_names (python_manager s))"
  by (auto simp: kept_rows_def to_remove_def split: if_splits)

lemma adopted_rows_ids:
  "q \<in> set (adopted_rows now s) \<Longrightarrow> program_id q \<in> set (file_get_all_names (python_manager s))"
  by (auto simp: adopted_rows_def adopted_def)

lemma kept_rows_visual:
  "q \<in> set (kept_rows now s) \<Longrightarrow> has_blockly q
     \<Longrightarrow> program_id q \<in> set (file_get_all_names (blockly_manager s))"
  by (auto simp: kept_rows_def to_remove_def to_downgrade_def downgrade_def db_update_row_def
      split: if_splits)

lemma adopted_rows_visual:
  "q \<in> set (adopted_rows now s) \<Longrightarrow> has_blockly q
     \<Longrightarrow> program_id q \<in> set (file_get_all_names (blockly_manager s))"
  by (auto simp: adopted_rows_def adopted_def)

lemma kept_rows_program_ids:
  "map program_id (kept_rows now s) =
     filter (\<lambda>i. i \<in> set (file_get_all_names (python_manager s))) (map program_id (database s))"
proof -
  have "map program_id (kept_rows now s) =
        map program_id (filter (\<lambda>q. \<not> to_remove (file_get_all_names (python_manager s)) (database s)
                            (program_id q)) (database s))"
    unfolding kept_rows_def map_map by (rule map_cong) simp_all
  also have "\<dots> = map program_id (filter (\<lambda>q. program_id q \<in> set (file_get_all_names (python_manager s))) (database s))"
    by (rule arg_cong [where f = "map program_id"], rule filter_cong) (simp_all add: to_remove_def)
  finally show ?thesis by (simp add: filter_map comp_def)
qed

lemma python_names_covered:
  assumes "n \<in> set (file_get_all_names (python_manager s))"
  shows "n \<in> set (map program_id (kept_rows now s @ adopted_rows now s))"
proof (cases "n \<in> set (map program_id (database s))")
  case True
  then show ?thesis using assms by (simp only: map_append set_append kept_rows_program_ids Un_iff set_filter mem_Collect_eq) simp
next
  case False
  then have "n \<in> set (filter (\<lambda>n. n \<notin> set (map program_id (database s))) (file_get_all_names (python_manager s)))"
    using assms by simp
  then have "program_id (adopted now (file_get_all_names (blockly_manager s)) n) \<in> set (map program_id (adopted_rows now s))"
    unfolding adopted_rows_def set_map by (intro imageI)
  then show ?thesis by (simp add: adopted_def)
qed

lemma check_db_programs_noop:
  "\<forall>p\<in>set ps. program_id p \<in> set py \<and> (has_blockly p \<longrightarrow> program_id p \<in> set bl)
     \<Longrightarrow> check_db_programs now py bl ps db = ([], db)"
  by (induction ps arbitrary: db) auto

lemma adopt_python_programs_noop:
  "set ns \<subseteq> set ids \<Longrightarrow> adopt_python_programs now ids bl ns db = ([], db)"
  by (induction ns arbitrary: db) auto

lemma sync_noop:
  assumes "\<forall>p\<in>set (database s). program_id p \<in> set (file_get_all_names (python_manager s))
             \<and> (has_blockly p \<longrightarrow> program_id p \<in> set (file_get_all_names (blockly_manager s)))"
    and "set (file_get_all_names (python_manager s)) \<subseteq> program_id ` set (database s)"
  shows "sync_db_with_system now s = ([], s)"
  using assms
  by (simp add: sync_db_with_system_def db_get_all_def check_db_programs_noop
        adopt_python_programs_noop)

lemma sync_idem:
  "sync_db_with_system now' (snd (sync_db_with_system now s)) = ([], snd (sync_db_with_system now s))"
proof (rule sync_noop)
  let ?s' = "snd (sync_db_with_system now s)"
  have db: "database ?s' = kept_rows now s @ adopted_rows now s"
    and py: "python_manager ?s' = python_manager s"
    and bl: "blockly_manager ?s' = blockly_manager s"
    by (simp_all add: sync_state)
  show "\<forall>p\<in>set (database ?s'). program_id p \<in> set (file_get_all_names (python_manager ?s'))
             \<and> (has_blockly p \<longrightarrow> program_id p \<in> set (file_get_all_names (blockly_manager ?s')))"
    unfolding db py bl
    using kept_rows_ids adopted_rows_ids kept_rows_visual adopted_rows_visual
    by (metis Un_iff set_append)
  show "set (file_get_all_names (python_manager ?s')) \<subseteq> program_id ` set (database ?s')"
    unfolding db py using python_names_covered [of _ s now] by auto
qed

subsection \<open>Reconciliation\<close>

text \<open>
  C2. Reconciliation is idempotent: for every state of the metadata store and of
  the two file stores, a second pass right after a first one logs no repair (no
  deletion, no downgrade, no insertion) and leaves the state as the first pass
  left it.
\<close>

theorem reconciliation_idempotent:
  "sync_db_with_system now' (snd (sync_db_with_system now s)) =
     ([], snd (sync_db_with_system now s))"
  by (rule sync_idem)

theorem reconciliation_idempotent_witness:
  "fst (sync_db_with_system ''t1'' diverged_manager) =
     [Downgraded ''a'', Removed ''b'', Adopted ''c'']
   \<and> sync_db_with_system ''t2'' (snd (sync_db_with_system ''t1'' diverged_manager)) =
     ([], snd (sync_db_with_system ''t1'' diverged_manager))"
  using reconciliation_idempotent [of "''t2''" "''t1''" diverged_manager]
  by (simp add: sync_log diverged_manager_def file_get_all_names_def)

subsection \<open>Invariant I1\<close>

lemma sync_python: "python_manager (snd (sync_db_with_system now s)) = python_manager s"
  by (simp add: sync_state)

lemma sync_I1: "I1 (snd (sync_db_with_system now s))"
  unfolding I1_def sync_state
  using kept_rows_ids [of _ now s] adopted_rows_ids [of _ now s]
  by (auto simp: file_exists_def file_get_all_names_def)

lemma sync_removes_orphans:
  assumes "\<not> file_exists (python_manager s) i"
  shows "\<not> db_exists (database (snd (sync_db_with_system now s))) i"
  using assms kept_rows_ids [of _ now s] adopted_rows_ids [of _ now s]
  unfolding sync_state db_exists_def
  by (auto simp: file_exists_def file_get_all_names_def)

lemma mem_update_keys:
  "k' \<in> set (map fst (AList.update k v al)) \<longleftrightarrow> k' = k \<or> k' \<in> set (map fst al)"
  unfolding update_keys by auto

lemma mem_delete_keys:
  "k' \<in> set (map fst (AList.delete k al)) \<longleftrightarrow> k' \<noteq> k \<and> k' \<in> set (map fst al)"
  unfolding delete_keys by auto

lemma file_exists_create:
  "file_create fm n b ok = Inr fm' \<Longrightarrow> file_exists fm' m = (m = n \<or> file_exists fm m)"
  by (cases ok) (auto simp add: file_exists_def file_create_def mem_update_keys simp del: set_map)

lemma file_exists_edit:
  "file_edit fm n b ok = Inr fm' \<Longrightarrow> file_exists fm' m = (m = n \<or> file_exists fm m)"
  by (cases ok) (auto simp add: file_exists_def file_edit_def mem_update_keys simp del: set_map)

lemma file_exists_remove:
  "file_remove fm n = Inr fm' \<Longrightarrow> file_exists fm' m = (m \<noteq> n \<and> file_exists fm m)"
  by (cases "file_exists fm n") (auto simp add: file_exists_def file_remove_def mem_delete_keys simp del: set_map)

lemma file_create_ok: "file_create fm n b True \<noteq> Inl e"
  by (simp add: file_create_def)

lemma create_program_I1:
  "I1 s \<Longrightarrow> py_ok \<Longrightarrow> I1 (snd (create_program s now uuid nm descr py bl py_ok bl_ok))"
  by (auto simp: I1_def create_program_def Let_def db_insert_program_def file_exists_create
      file_create_ok split: sum.splits if_splits)

lemma create_program_write_fails:
  "create_program s now uuid nm descr py bl False bl_ok =
     (Inl StorageFailure,
      s\<lparr>database := db_insert_program (database s) now uuid nm descr (bl \<noteq> '''')\<rparr>)"
  by (simp add: create_program_def file_create_def)

lemma update_program_I1:
  "I1 s \<Longrightarrow> I1 (snd (update_program s now i nm descr py bl py_ok bl_ok))"
  by (auto simp: I1_def update_program_def Let_def db_update_program_def file_exists_edit
      db_update_row_def split: sum.splits option.splits if_splits)

lemma delete_program_I1: "I1 s \<Longrightarrow> I1 (snd (delete_program s i))"
  by (auto simp: I1_def delete_program_def Let_def db_delete_program_def file_exists_remove
      split: sum.splits option.splits if_splits)

text \<open>
  C1. Invariant I1 (every program id of the metadata store has a script file)
  holds after the startup reconciliation pass, whatever the stores held; the pass
  leaves the script store as it is, and a row whose script file is missing at
  construction is no longer in the metadata store after the pass. Update and
  delete preserve I1 in every outcome, and create preserves it whenever the write
  of the script file succeeds. A create whose script write fails ends with
  \<open>StorageFailure\<close> and leaves the row it has inserted; when the id has no script
  file, I1 is then broken, until the next pass.
\<close>

theorem I1_established_and_preserved:
  "I1 (snd (sync_db_with_system now s))
   \<and> python_manager (snd (sync_db_with_system now s)) = python_manager s
   \<and> (\<forall>p \<in> set (database s). \<not> file_exists (python_manager s) (program_id p) \<longrightarrow>
          \<not> db_exists (database (snd (sync_db_with_system now s))) (program_id p))
   \<and> (I1 s \<longrightarrow> (py_ok \<longrightarrow> I1 (snd (create_program s now uuid nm descr py bl py_ok bl_ok)))
              \<and> I1 (snd (update_program s now i nm descr py bl py_ok bl_ok))
              \<and> I1 (snd (delete_program s i)))
   \<and> create_program s now uuid nm descr py bl False bl_ok =
       (Inl StorageFailure,
        s\<lparr>database := db_insert_program (database s) now uuid nm descr (bl \<noteq> '''')\<rparr>)
   \<and> (\<not> file_exists (python_manager s) uuid \<longrightarrow>
        \<not> I1 (snd (create_program s now uuid nm descr py bl False bl_ok)))"
proof -
  have "\<not> file_exists (python_manager s) uuid \<longrightarrow>
        \<not> I1 (snd (create_program s now uuid nm descr py bl False bl_ok))"
    by (auto simp: create_program_write_fails I1_def db_insert_program_def)
  then show ?thesis
    using sync_I1 sync_python sync_removes_orphans create_program_I1 update_program_I1
      delete_program_I1 create_program_write_fails
    by simp
qed

theorem I1_established_and_preserved_witness:
  "\<not> I1 diverged_manager
   \<and> I1 (snd (sync_db_with_system ''t1'' diverged_manager))
   \<and> \<not> file_exists (python_manager diverged_manager) ''b''
   \<and> \<not> db_exists (database (snd (sync_db_with_system ''t1'' diverged_manager))) ''b''
   \<and> I1 settled_manager
   \<and> I1 (snd (create_program settled_manager ''t1'' ''u'' ''place'' ''put down'' ''print(2)'' ''''
              True True))
   \<and> I1 (snd (update_program settled_manager ''t1'' ''a'' ''pick'' ''pick up'' ''print(4)'' ''''
              False True))
   \<and> I1 (snd (delete_program settled_manager ''a''))
   \<and> \<not> file_exists (python_manager settled_manager) ''u''
   \<and> \<not> I1 (snd (create_program settled_manager ''t1'' ''u'' ''place'' ''put down'' ''print(2)'' ''''
              False True))
   \<and> I1 (snd (sync_db_with_system ''t2''
         (snd (create_program settled_manager ''t1'' ''u'' ''place'' ''put down'' ''print(2)'' ''''
              False True))))"
proof -
  have d: "\<not> I1 diverged_manager" "\<not> file_exists (python_manager diverged_manager) ''b''"
    by (simp_all add: I1_def diverged_manager_def file_exists_def)
  have b: "\<lparr>program_id = ''b'', name = ''wave'', description = ''wave the arm'',
          saved_at = ''t0'', has_blockly = False\<rparr> \<in> set (database diverged_manager)"
    by (simp add: diverged_manager_def)
  have s: "I1 settled_manager" "\<not> file_exists (python_manager settled_manager) ''u''"
    by (simp_all add: I1_def settled_manager_def file_exists_def)
  from I1_established_and_preserved [of "''t1''" diverged_manager]
  have 1: "I1 (snd (sync_db_with_system ''t1'' diverged_manager))"
    and 2: "\<forall>p \<in> set (database diverged_manager).
              \<not> file_exists (python_manager diverged_manager) (program_id p) \<longrightarrow>
              \<not> db_exists (database (snd (sync_db_with_system ''t1'' diverged_manager))) (program_id p)"
    by blast+
  from 2 b d(2) have 3: "\<not> db_exists (database (snd (sync_db_with_system ''t1'' diverged_manager))) ''b''"
    by fastforce
  from s(1) I1_established_and_preserved [of "''t1''" settled_manager True "''u''" "''place''"
      "''put down''" "''print(2)''" "''''" True "''a''"]
  have 4: "I1 (snd (create_program settled_manager ''t1'' ''u'' ''place'' ''put down'' ''print(2)'' ''''
              True True))"
    and 6: "I1 (snd (delete_program settled_manager ''a''))"
    by blast+
  from s(1) I1_established_and_preserved [of "''t1''" settled_manager False "''a''" "''pick''"
      "''pick up''" "''print(4)''" "''''" True "''a''"]
  have 5: "I1 (snd (update_program settled_manager ''t1'' ''a'' ''pick'' ''pick up'' ''print(4)'' ''''
              False True))"
    by blast
  from s(2) I1_established_and_preserved [of "''t1''" settled_manager True "''u''" "''place''"
      "''put down''" "''print(2)''" "''''" True "''a''"]
  have 7: "\<not> I1 (snd (create_program settled_manager ''t1'' ''u'' ''place'' ''put down'' ''print(2)'' ''''
              False True))"
    by blast
  from I1_established_and_preserved [of "''t2''"
      "snd (create_program settled_manager ''t1'' ''u'' ''place'' ''put down'' ''print(2)'' ''''
              False True)"]
  have 8: "I1 (snd (sync_db_with_system ''t2''
         (snd (create_program settled_manager ''t1'' ''u'' ''place'' ''put down'' ''print(2)'' ''''
              False True))))"
    by blast
  from d 1 3 s 4 5 6 7 8 show ?thesis by blast
qed

text \<open>
  C1 as first stated has every mutation preserve I1. The source writes the row
  (line 73) before the script file (line 74) and does not roll back: when that
  write fails, the row stays without its file.
\<close>

theorem I1_create_counterexample:
  "I1 settled_manager
   \<and> fst (create_program settled_manager ''t1'' ''u'' ''place'' ''put down'' ''print(2)'' ''''
          False True) = Inl StorageFailure
   \<and> db_exists (database (snd (create_program settled_manager ''t1'' ''u'' ''place'' ''put down''
          ''print(2)'' '''' False True))) ''u''
   \<and> \<not> file_exists (python_manager (snd (create_program settled_manager ''t1'' ''u'' ''place''
          ''put down'' ''print(2)'' '''' False True))) ''u''
   \<and> \<not> I1 (snd (create_program settled_manager ''t1'' ''u'' ''place'' ''put down'' ''print(2)'' ''''
          False True))"
  by (simp add: create_program_def file_create_def I1_def settled_manager_def file_exists_def
      db_exists_def db_insert_program_def)

subsection \<open>Adoption of script files without a row\<close>

lemma find_append_None:
  "find P xs = None \<Longrightarrow> find P (xs @ ys) = find P ys"
  by (induction xs) (auto split: if_splits)

lemma find_map_adopted:
  "n \<in> set ns \<Longrightarrow> find (\<lambda>p. program_id p = n) (map (adopted now bl) ns) = Some (adopted now bl n)"
  by (induction ns) (auto simp: adopted_def)

lemma find_kept_rows_None:
  "n \<notin> set (map program_id (database s)) \<Longrightarrow> find (\<lambda>p. program_id p = n) (kept_rows now s) = None"
  by (simp add: find_None_iff kept_rows_def) auto

text \<open>
  C3. Orphan-file adoption: for every script file whose id has no row, the pass
  inserts a row for that id with the id as name, the description
  \<^verbatim>\<open>Unknown program\<close>, and \<^verbatim>\<open>has_blockly\<close> true exactly when the visual store
  has a file of that id; the adoption is logged.
\<close>

theorem orphan_file_adopted:
  assumes "file_exists (python_manager s) n" and "\<not> db_exists (database s) n"
  shows "db_get_by_id (database (snd (sync_db_with_system now s))) n =
           Inr \<lparr>program_id = n, name = n, description = ''Unknown program'', saved_at = now,
                has_blockly = file_exists (blockly_manager s) n\<rparr>
         \<and> Adopted n \<in> set (fst (sync_db_with_system now s))"
proof -
  let ?ns = "filter (\<lambda>n. n \<notin> set (map program_id (database s)))
               (file_get_all_names (python_manager s))"
  have n: "n \<in> set ?ns"
    using assms by (simp add: file_exists_def db_exists_def file_get_all_names_def)
  have "find (\<lambda>p. program_id p = n) (kept_rows now s @ adopted_rows now s) =
          Some (adopted now (file_get_all_names (blockly_manager s)) n)"
    using assms(2) find_map_adopted [OF n]
    by (simp add: find_append_None find_kept_rows_None db_exists_def adopted_rows_def)
  then have 1: "db_get_by_id (database (snd (sync_db_with_system now s))) n =
           Inr \<lparr>program_id = n, name = n, description = ''Unknown program'', saved_at = now,
                has_blockly = file_exists (blockly_manager s) n\<rparr>"
    by (simp add: db_get_by_id_def sync_state adopted_def file_exists_def file_get_all_names_def)
  have "Adopted n \<in> set (map Adopted ?ns)"
    using n unfolding set_map by (rule imageI)
  then have 2: "Adopted n \<in> set (fst (sync_db_with_system now s))"
    unfolding sync_log set_append by (rule UnI2)
  from 1 2 show ?thesis by simp
qed

theorem orphan_file_adopted_witness:
  "file_exists (python_manager diverged_manager) ''c''
   \<and> \<not> db_exists (database diverged_manager) ''c''
   \<and> db_get_by_id (database (snd (sync_db_with_system ''t1'' diverged_manager))) ''c'' =
           Inr \<lparr>program_id = ''c'', name = ''c'', description = ''Unknown program'',
                saved_at = ''t1'', has_blockly = True\<rparr>
   \<and> Adopted ''c'' \<in> set (fst (sync_db_with_system ''t1'' diverged_manager))"
proof -
  have h: "file_exists (python_manager diverged_manager) ''c''"
    "\<not> db_exists (database diverged_manager) ''c''"
    "file_exists (blockly_manager diverged_manager) ''c''"
    by (simp_all add: diverged_manager_def file_exists_def db_exists_def)
  from orphan_file_adopted [OF h(1,2), of "''t1''"] h show ?thesis by simp
qed

subsection \<open>Repair of a dangling visual flag\<close>

lemma filter_id_map:
  assumes "\<And>q. program_id (F q) = program_id q"
  shows "filter (\<lambda>q. program_id q = i) (map F xs) = map F (filter (\<lambda>q. program_id q = i) xs)"
  by (induction xs) (simp_all add: assms)

lemma downgrade_eq: "downgrade now q = q\<lparr>saved_at := now, has_blockly := False\<rparr>"
  by (simp add: downgrade_def db_update_row_def)

lemma kept_rows_of_id:
  assumes "to_downgrade (file_get_all_names (python_manager s))
             (file_get_all_names (blockly_manager s)) (database s) i"
  shows "filter (\<lambda>q. program_id q = i) (kept_rows now s) =
           map (downgrade now) (filter (\<lambda>q. program_id q = i) (database s))"
proof -
  let ?F = "\<lambda>q. if to_downgrade (file_get_all_names (python_manager s))
                      (file_get_all_names (blockly_manager s)) (database s) (program_id q)
               then downgrade now q else q"
  let ?G = "\<lambda>q. \<not> to_remove (file_get_all_names (python_manager s)) (database s) (program_id q)"
  have i: "i \<in> set (file_get_all_names (python_manager s))"
    using assms by (simp add: to_downgrade_def)
  have "filter (\<lambda>q. program_id q = i) (kept_rows now s) =
          map ?F (filter (\<lambda>q. program_id q = i) (filter ?G (database s)))"
    unfolding kept_rows_def by (rule filter_id_map) simp
  also have "filter (\<lambda>q. program_id q = i) (filter ?G (database s)) =
          filter (\<lambda>q. program_id q = i) (database s)"
    unfolding filter_filter using i by (intro filter_cong refl) (auto simp: to_remove_def)
  also have "map ?F (filter (\<lambda>q. program_id q = i) (database s)) =
          map (downgrade now) (filter (\<lambda>q. program_id q = i) (database s))"
    using assms by (intro map_cong refl) auto
  finally show ?thesis .
qed

lemma adopted_rows_of_id:
  "i \<in> set (map program_id (database s)) \<Longrightarrow>
     filter (\<lambda>q. program_id q = i) (adopted_rows now s) = []"
  by (auto simp: adopted_rows_def adopted_def filter_empty_conv)

text \<open>
  C4. Dangling-visual-flag repair: for every row with \<^verbatim>\<open>has_blockly\<close> set whose id
  has a script file and no visual file, the pass keeps the rows of that id, each
  with \<^verbatim>\<open>has_blockly\<close> false and \<^verbatim>\<open>saved_at\<close> the time of the repair write, their id,
  name and description as before; it leaves the script store and the visual store
  as they are (no script file deleted, no visual body created), logs the
  downgrade and does not delete the row.
\<close>

theorem dangling_flag_downgraded:
  assumes "p \<in> set (database s)" and "has_blockly p"
    and "file_exists (python_manager s) (program_id p)"
    and "\<not> file_exists (blockly_manager s) (program_id p)"
  shows "filter (\<lambda>q. program_id q = program_id p) (database (snd (sync_db_with_system now s))) =
           map (\<lambda>q. q\<lparr>saved_at := now, has_blockly := False\<rparr>)
             (filter (\<lambda>q. program_id q = program_id p) (database s))
         \<and> python_manager (snd (sync_db_with_system now s)) = python_manager s
         \<and> blockly_manager (snd (sync_db_with_system now s)) = blockly_manager s
         \<and> Downgraded (program_id p) \<in> set (fst (sync_db_with_system now s))
         \<and> Removed (program_id p) \<notin> set (fst (sync_db_with_system now s))"
proof -
  have td: "to_downgrade (file_get_all_names (python_manager s))
             (file_get_all_names (blockly_manager s)) (database s) (program_id p)"
    using assms by (auto simp: to_downgrade_def file_exists_def file_get_all_names_def)
  have mem: "program_id p \<in> set (map program_id (database s))"
    using assms(1) by simp
  have 1: "filter (\<lambda>q. program_id q = program_id p) (database (snd (sync_db_with_system now s))) =
           map (\<lambda>q. q\<lparr>saved_at := now, has_blockly := False\<rparr>)
             (filter (\<lambda>q. program_id q = program_id p) (database s))"
    using kept_rows_of_id [OF td, of now] adopted_rows_of_id [OF mem, of now]
    by (simp add: sync_state downgrade_eq [abs_def])
  have 2: "Downgraded (program_id p) \<in> set (fst (sync_db_with_system now s))"
    unfolding sync_log using assms
    by (auto simp: file_exists_def file_get_all_names_def intro!: bexI [of _ p])
  have 3: "Removed (program_id p) \<notin> set (fst (sync_db_with_system now s))"
    unfolding sync_log using assms(3)
    by (force simp: file_exists_def file_get_all_names_def split: if_splits)
  from 1 2 3 show ?thesis by (simp add: sync_state)
qed

theorem dangling_flag_downgraded_witness:
  "filter (\<lambda>q. program_id q = ''a'') (database (snd (sync_db_with_system ''t1'' diverged_manager))) =
     [\<lparr>program_id = ''a'', name = ''pick'', description = ''pick and place'',
       saved_at = ''t1'', has_blockly = False\<rparr>]
   \<and> python_manager (snd (sync_db_with_system ''t1'' diverged_manager)) =
       python_manager diverged_manager
   \<and> blockly_manager (snd (sync_db_with_system ''t1'' diverged_manager)) =
       blockly_manager diverged_manager"
proof -
  let ?a = "\<lparr>program_id = ''a'', name = ''pick'', description = ''pick and place'',
          saved_at = ''t0'', has_blockly = True\<rparr>"
  have h: "?a \<in> set (database diverged_manager)" "has_blockly ?a"
    "file_exists (python_manager diverged_manager) (program_id ?a)"
    "\<not> file_exists (blockly_manager diverged_manager) (program_id ?a)"
    by (simp_all add: diverged_manager_def file_exists_def)
  have f: "filter (\<lambda>q. program_id q = ''a'') (database diverged_manager) = [?a]"
    by (simp add: diverged_manager_def)
  from dangling_flag_downgraded [OF h, of "''t1''"] f show ?thesis by simp
qed

text \<open>
  C4 as first stated has the repair change nothing but \<^verbatim>\<open>has_blockly\<close>. The repair
  is a metadata write and stamps the row: the row with only the flag changed is
  not in the store afterwards.
\<close>

theorem dangling_flag_counterexample:
  "\<lparr>program_id = ''a'', name = ''pick'', description = ''pick and place'',
     saved_at = ''t0'', has_blockly = True\<rparr> \<in> set (database diverged_manager)
   \<and> file_exists (python_manager diverged_manager) ''a''
   \<and> \<not> file_exists (blockly_manager diverged_manager) ''a''
   \<and> \<lparr>program_id = ''a'', name = ''pick'', description = ''pick and place'',
        saved_at = ''t0'', has_blockly = False\<rparr>
       \<notin> set (database (snd (sync_db_with_system ''t1'' diverged_manager)))"
  by (simp add: sync_state kept_rows_def adopted_rows_def adopted_def downgrade_eq
      to_remove_def to_downgrade_def diverged_manager_def file_exists_def file_get_all_names_def)

subsection \<open>Create, then get\<close>

lemma get_programs_irrelevant [simp]: "get (s\<lparr>programs := x\<rparr>) i = get s i"
  by (simp add: get_def cong: sum.case_cong if_cong)

lemma db_get_by_id_insert_fresh:
  "\<not> db_exists db i \<Longrightarrow>
     db_get_by_id (db_insert_program db now i nm descr hb) i =
       Inr \<lparr>program_id = i, name = nm, description = descr, saved_at = now, has_blockly = hb\<rparr>"
proof -
  assume "\<not> db_exists db i"
  then have "find (\<lambda>p. program_id p = i) db = None"
    by (auto simp: db_exists_def find_None_iff)
  then show ?thesis
    by (simp add: db_get_by_id_def db_insert_program_def find_append_None)
qed

lemma file_create_True:
  "file_create fm n body True = Inr (fm\<lparr>files := AList.update n body (files fm)\<rparr>)"
  by (simp add: file_create_def)

lemma file_edit_True:
  "file_edit fm n body True = Inr (fm\<lparr>files := AList.update n body (files fm)\<rparr>)"
  by (simp add: file_edit_def)

lemma file_read_written:
  "file_read (fm\<lparr>files := AList.update n body (files fm)\<rparr>) n = Inr body"
  by (simp add: file_read_def update_conv')

text \<open>
  C5. Create-then-get round trip: for every name, description and script body,
  \<^verbatim>\<open>create_program\<close> without a visual body, its script write succeeding, returns
  the fresh id it drew, and \<^verbatim>\<open>get\<close> on that id yields the record with that script
  body, \<^verbatim>\<open>has_blockly\<close> false and an empty visual body. The id is fresh: no row of
  the metadata store has it. When the script write fails no id is returned.
\<close>

theorem create_then_get:
  assumes "\<not> db_exists (database s) uuid"
  shows "fst (create_program s now uuid nm descr py '''' True bl_ok) = Inr uuid
         \<and> get (snd (create_program s now uuid nm descr py '''' True bl_ok)) uuid =
             Inr \<lparr>program_id = uuid, name = nm, description = descr, saved_at = now,
                  has_blockly = False, python_code = py, blockly_code = ''''\<rparr>
         \<and> fst (create_program s now uuid nm descr py '''' False bl_ok) = Inl StorageFailure"
proof -
  let ?s3 = "s\<lparr>database := db_insert_program (database s) now uuid nm descr False,
               python_manager := (python_manager s)
                 \<lparr>files := AList.update uuid py (files (python_manager s))\<rparr>\<rparr>"
  have g: "get ?s3 uuid =
             Inr \<lparr>program_id = uuid, name = nm, description = descr, saved_at = now,
                  has_blockly = False, python_code = py, blockly_code = ''''\<rparr>"
    using assms by (simp add: get_def db_get_by_id_insert_fresh file_read_written merged_def)
  have ok: "fst (create_program s now uuid nm descr py '''' True bl_ok) = Inr uuid
         \<and> get (snd (create_program s now uuid nm descr py '''' True bl_ok)) uuid =
             Inr \<lparr>program_id = uuid, name = nm, description = descr, saved_at = now,
                  has_blockly = False, python_code = py, blockly_code = ''''\<rparr>"
    using g by (simp add: create_program_def file_create_True)
  have ko: "fst (create_program s now uuid nm descr py '''' False bl_ok) = Inl StorageFailure"
    by (simp only: create_program_write_fails fst_conv)
  from ok ko show ?thesis by blast
qed

theorem create_then_get_witness:
  "\<not> db_exists (database settled_manager) ''u''
   \<and> fst (create_program settled_manager ''t1'' ''u'' ''place'' ''put down'' ''print(2)'' ''''
          True True) = Inr ''u''
   \<and> get (snd (create_program settled_manager ''t1'' ''u'' ''place'' ''put down'' ''print(2)'' ''''
          True True)) ''u'' =
       Inr \<lparr>program_id = ''u'', name = ''place'', description = ''put down'', saved_at = ''t1'',
            has_blockly = False, python_code = ''print(2)'', blockly_code = ''''\<rparr>"
proof -
  have h: "\<not> db_exists (database settled_manager) ''u''"
    by (simp add: settled_manager_def db_exists_def)
  from create_then_get [OF h] h show ?thesis by simp
qed

subsection \<open>Update of an unknown program\<close>

lemma db_update_program_absent:
  "\<not> db_exists db i \<Longrightarrow> db_update_program db now i nm descr hb = db"
  by (auto simp: db_exists_def db_update_program_def intro!: map_idI)

text \<open>
  C6. Update of an id that has neither a row in the metadata store nor an entry
  in the cache fails, and leaves the metadata store, the cache and the runner as
  they were. It does not fail with \<open>NotFound\<close>, and not before the file stores are
  written: when the writes succeed the script file of that id holds the new
  script body, the visual file holds the visual body when one is given, and the
  call fails with the \<open>KeyError\<close> of \<^verbatim>\<open>self.__programs.pop\<close>; when a write fails the
  call fails with \<open>StorageFailure\<close>, and with the manager as it was when it is the
  script write.
\<close>

theorem update_unknown_program:
  assumes "\<not> db_exists (database s) i" and "map_of (programs s) i = None"
  shows "fst (update_program s now i nm descr py bl py_ok bl_ok) =
           Inl (if py_ok \<and> (bl = '''' \<or> bl_ok) then KeyError else StorageFailure)
         \<and> database (snd (update_program s now i nm descr py bl py_ok bl_ok)) = database s
         \<and> programs (snd (update_program s now i nm descr py bl py_ok bl_ok)) = programs s
         \<and> python_runner (snd (update_program s now i nm descr py bl py_ok bl_ok)) = python_runner s
         \<and> (py_ok \<longrightarrow>
              file_read (python_manager (snd (update_program s now i nm descr py bl py_ok bl_ok))) i
                = Inr py)
         \<and> (py_ok \<and> bl \<noteq> '''' \<and> bl_ok \<longrightarrow>
              file_read (blockly_manager (snd (update_program s now i nm descr py bl py_ok bl_ok))) i
                = Inr bl)
         \<and> (\<not> py_ok \<longrightarrow> snd (update_program s now i nm descr py bl py_ok bl_ok) = s)"
proof -
  have db: "\<And>hb. db_update_program (database s) now i (Some nm) (Some descr) hb = database s"
    using assms(1) by (rule db_update_program_absent)
  show ?thesis
  proof (cases py_ok)
    case False
    then show ?thesis
      by (simp add: update_program_def db file_edit_def)
  next
    case py: True
    show ?thesis
    proof (cases "bl = ''''")
      case True
      then show ?thesis
        using py assms(2)
        by (simp add: update_program_def db file_edit_def file_read_written)
    next
      case bl: False
      show ?thesis
      proof (cases bl_ok)
        case True
        then show ?thesis
          using py bl assms(2)
          by (simp add: update_program_def db file_edit_def file_read_written)
      next
        case False
        then show ?thesis
          using py bl
          by (simp add: update_program_def db file_edit_def file_read_written)
      qed
    qed
  qed
qed

theorem update_unknown_program_witness:
  "\<not> db_exists (database settled_manager) ''z''
   \<and> map_of (programs settled_manager) ''z'' = None
   \<and> fst (update_program settled_manager ''t1'' ''z'' ''n'' ''d'' ''print(9)'' ''<xml/>'' True True)
       = Inl KeyError
   \<and> database (snd (update_program settled_manager ''t1'' ''z'' ''n'' ''d'' ''print(9)'' ''<xml/>''
        True True)) = database settled_manager
   \<and> programs (snd (update_program settled_manager ''t1'' ''z'' ''n'' ''d'' ''print(9)'' ''<xml/>''
        True True)) = programs settled_manager
   \<and> file_read (python_manager (snd (update_program settled_manager ''t1'' ''z'' ''n'' ''d''
        ''print(9)'' ''<xml/>'' True True))) ''z'' = Inr ''print(9)''
   \<and> file_read (blockly_manager (snd (update_program settled_manager ''t1'' ''z'' ''n'' ''d''
        ''print(9)'' ''<xml/>'' True True))) ''z'' = Inr ''<xml/>''"
proof -
  have h: "\<not> db_exists (database settled_manager) ''z''"
    "map_of (programs settled_manager) ''z'' = None"
    by (simp_all add: settled_manager_def db_exists_def)
  from update_unknown_program [OF h, of "''t1''" "''n''" "''d''" "''print(9)''" "''<xml/>''" True True] h
  show ?thesis by simp
qed

text \<open>
  C6 as first stated has the call fail with \<open>NotFound\<close> and leave both file stores
  unchanged. The source has no test for the program before its writes: the call
  fails with \<open>KeyError\<close>, and the script store has a file of that id afterwards
  that it did not have before.
\<close>

theorem update_unknown_program_counterexample:
  "\<not> db_exists (database settled_manager) ''z''
   \<and> map_of (programs settled_manager) ''z'' = None
   \<and> fst (update_program settled_manager ''t1'' ''z'' ''n'' ''d'' ''print(9)'' '''' True True)
       = Inl KeyError
   \<and> fst (update_program settled_manager ''t1'' ''z'' ''n'' ''d'' ''print(9)'' '''' True True)
       \<noteq> Inl NotFound
   \<and> \<not> file_exists (python_manager settled_manager) ''z''
   \<and> file_exists (python_manager
         (snd (update_program settled_manager ''t1'' ''z'' ''n'' ''d'' ''print(9)'' '''' True True)))
       ''z''"
  by (simp add: settled_manager_def update_program_def db_exists_def db_update_program_def
      file_edit_def file_exists_def)

subsection \<open>Update without a visual body\<close>

lemma find_map_same_id:
  assumes "\<And>q. program_id (F q) = program_id q"
  shows "find (\<lambda>q. program_id q = i) (map F xs) = map_option F (find (\<lambda>q. program_id q = i) xs)"
  by (induction xs) (simp_all add: assms)

lemma db_get_by_id_update:
  assumes "db_get_by_id db i = Inr p"
  shows "db_get_by_id (db_update_program db now i (Some nm) (Some descr) (Some hb)) i =
           Inr \<lparr>program_id = i, name = nm, description = descr, saved_at = now, has_blockly = hb\<rparr>"
proof -
  from assms have f: "find (\<lambda>q. program_id q = i) db = Some p"
    by (simp add: db_get_by_id_def split: option.splits)
  then have i: "program_id p = i"
    by (auto simp: find_Some_iff)
  have "find (\<lambda>q. program_id q = i)
          (map (\<lambda>q. if program_id q = i then db_update_row now (Some nm) (Some descr) (Some hb) q else q) db)
        = map_option (\<lambda>q. if program_id q = i then db_update_row now (Some nm) (Some descr) (Some hb) q else q)
            (find (\<lambda>q. program_id q = i) db)"
    by (rule find_map_same_id) (simp add: db_update_row_def)
  with f i show ?thesis
    by (simp add: db_get_by_id_def db_update_program_def db_update_row_def)
qed

lemma sync_blockly: "blockly_manager (snd (sync_db_with_system now s)) = blockly_manager s"
  by (simp add: sync_state)

text \<open>
  C10. An empty visual body is no visual body, and update never removes a stale
  visual file: for every existing program whose row has \<^verbatim>\<open>has_blockly\<close> set,
  \<^verbatim>\<open>update_program\<close> with an empty visual body, its script write succeeding,
  succeeds and sets the flag to false, so that \<^verbatim>\<open>get\<close> returns an empty visual
  body, while the visual store is left as it was, by the update and by a later
  reconciliation pass.
\<close>

theorem update_without_visual_body:
  assumes "db_get_by_id (database s) i = Inr p" and "has_blockly p"
    and "file_exists (python_manager s) i"
    and "map_of (programs s) i = Some old"
  shows "fst (update_program s now i nm descr py '''' True bl_ok) = Inr ()
         \<and> get (snd (update_program s now i nm descr py '''' True bl_ok)) i =
             Inr \<lparr>program_id = i, name = nm, description = descr, saved_at = now,
                  has_blockly = False, python_code = py, blockly_code = ''''\<rparr>
         \<and> blockly_manager (snd (update_program s now i nm descr py '''' True bl_ok)) =
             blockly_manager s
         \<and> blockly_manager (snd (sync_db_with_system now'
               (snd (update_program s now i nm descr py '''' True bl_ok)))) = blockly_manager s"
proof -
  let ?s2 = "s\<lparr>database := db_update_program (database s) now i (Some nm) (Some descr) (Some False),
               python_manager := (python_manager s)
                 \<lparr>files := AList.update i py (files (python_manager s))\<rparr>\<rparr>"
  have g: "get ?s2 i =
             Inr \<lparr>program_id = i, name = nm, description = descr, saved_at = now,
                  has_blockly = False, python_code = py, blockly_code = ''''\<rparr>"
    using db_get_by_id_update [OF assms(1), of now nm descr False]
    by (simp add: get_def merged_def file_read_written)
  have u: "update_program s now i nm descr py '''' True bl_ok =
             (Inr (), ?s2\<lparr>programs := AList.update i
                \<lparr>program_id = i, name = nm, description = descr, saved_at = now,
                  has_blockly = False, python_code = py, blockly_code = ''''\<rparr>
                (AList.delete i (programs s))\<rparr>)"
    using g assms(4) by (simp add: update_program_def file_edit_True)
  show ?thesis
    unfolding u using g by (simp add: sync_blockly)
qed

theorem update_without_visual_body_witness:
  "fst (update_program settled_manager ''t1'' ''a'' ''pick'' ''pick up'' ''print(4)'' '''' True True)
     = Inr ()
   \<and> get (snd (update_program settled_manager ''t1'' ''a'' ''pick'' ''pick up'' ''print(4)'' ''''
        True True)) ''a'' =
       Inr \<lparr>program_id = ''a'', name = ''pick'', description = ''pick up'', saved_at = ''t1'',
            has_blockly = False, python_code = ''print(4)'', blockly_code = ''''\<rparr>
   \<and> file_read (blockly_manager
         (snd (update_program settled_manager ''t1'' ''a'' ''pick'' ''pick up'' ''print(4)'' ''''
            True True))) ''a'' =
       Inr ''<xml/>''
   \<and> file_read (blockly_manager (snd (sync_db_with_system ''t2''
         (snd (update_program settled_manager ''t1'' ''a'' ''pick'' ''pick up'' ''print(4)'' ''''
            True True))))) ''a'' =
       Inr ''<xml/>''"
proof -
  let ?p = "\<lparr>program_id = ''a'', name = ''pick'', description = ''pick and place'',
          saved_at = ''t0'', has_blockly = True\<rparr>"
  let ?old = "\<lparr>program_id = ''a'', name = ''pick'', description = ''pick and place'',
                  saved_at = ''t0'', has_blockly = True, python_code = ''print(1)'',
                  blockly_code = ''<xml/>''\<rparr>"
  have h: "db_get_by_id (database settled_manager) ''a'' = Inr ?p" "has_blockly ?p"
    "file_exists (python_manager settled_manager) ''a''"
    "map_of (programs settled_manager) ''a'' = Some ?old"
    by (simp_all add: settled_manager_def db_get_by_id_def file_exists_def)
  have b: "file_read (blockly_manager settled_manager) ''a'' = Inr ''<xml/>''"
    by (simp add: settled_manager_def file_read_def)
  from update_without_visual_body [OF h, of "''t1''" "''pick''" "''pick up''" "''print(4)''" True "''t2''"] b
  show ?thesis by simp
qed

subsection \<open>Execution: a start request while a body runs\<close>

lemma run_Nil [simp]: "run c [] = c"
  by (simp add: run_def)

lemma run_snoc [simp]: "run c (evs @ [e]) = step (run c evs) e"
  by (simp add: run_def)

lemma start_at_running:
  "is_running (python_runner s) \<Longrightarrow> start_at s p = (Inl AlreadyRunning, s)"
  by (simp add: start_at_def runner_start_def)

lemma thread_step_running:
  assumes "is_running (python_runner s)" and "start_called th \<longrightarrow> rejected th"
  shows "python_runner (snd (thread_step th s)) = python_runner s
         \<and> (start_called (fst (thread_step th s)) \<longrightarrow> rejected (fst (thread_step th s)))"
  using assms by (cases th) (simp_all add: start_at_running)

lemma step_poll_frame:
  "thread (step c Caller_polls) = thread c"
  "manager_state (step c Caller_polls) = manager_state c"
  by simp_all

lemma step_thread_frame:
  "thread (step c Thread_runs) = fst (thread_step (thread c) (manager_state c))"
  "manager_state (step c Thread_runs) = snd (thread_step (thread c) (manager_state c))"
  by (simp_all add: split_def)

lemma step_running:
  assumes "is_running (python_runner (manager_state c))"
    and "start_called (thread c) \<longrightarrow> rejected (thread c)"
    and "e = Thread_runs \<or> e = Caller_polls"
  shows "python_runner (manager_state (step c e)) = python_runner (manager_state c)
         \<and> (start_called (thread (step c e)) \<longrightarrow> rejected (thread (step c e)))"
  using assms(3)
proof
  assume "e = Thread_runs"
  then show ?thesis
    using thread_step_running [OF assms(1,2)] by (simp only: step_thread_frame) simp
next
  assume "e = Caller_polls"
  then show ?thesis
    using assms(2) by (simp only: step_poll_frame)
qed

lemma run_running:
  assumes "is_running (python_runner (manager_state c))"
    and "start_called (thread c) \<longrightarrow> rejected (thread c)"
    and "polls_and_thread_steps evs"
  shows "python_runner (manager_state (run c evs)) = python_runner (manager_state c)
         \<and> (start_called (thread (run c evs)) \<longrightarrow> rejected (thread (run c evs)))"
  using assms(3)
proof (induction evs rule: rev_induct)
  case Nil
  then show ?case using assms(2) by simp
next
  case (snoc e evs)
  then have ih: "python_runner (manager_state (run c evs)) = python_runner (manager_state c)"
    "start_called (thread (run c evs)) \<longrightarrow> rejected (thread (run c evs))"
    and e: "e = Thread_runs \<or> e = Caller_polls"
    by (simp_all add: polls_and_thread_steps_def)
  from ih(1) assms(1) have r: "is_running (python_runner (manager_state (run c evs)))" by simp
  from step_running [OF r ih(2) e] ih(1) show ?case by simp
qed

lemma returned_step_thread: "returned (step c Thread_runs) = returned c"
  by (simp add: split_def)

lemma run_returned_running:
  assumes "is_running (python_runner (manager_state c))"
    and "start_called (thread c) \<longrightarrow> rejected (thread c)"
    and "polls_and_thread_steps evs" and "\<not> returned c"
  shows "returned (run c evs) = (Caller_polls \<in> set evs)"
  using assms(3)
proof (induction evs rule: rev_induct)
  case Nil
  then show ?case using assms(4) by simp
next
  case (snoc e evs)
  then have ih: "returned (run c evs) = (Caller_polls \<in> set evs)"
    and p: "polls_and_thread_steps evs"
    and e: "e = Thread_runs \<or> e = Caller_polls"
    by (simp_all add: polls_and_thread_steps_def)
  from run_running [OF assms(1,2) p] assms(1)
  have r: "is_running (python_runner (manager_state (run c evs)))" by simp
  from e show ?case
  proof
    assume "e = Thread_runs"
    then show ?thesis using ih by (simp add: returned_step_thread del: step.simps)
  next
    assume "e = Caller_polls"
    then show ?thesis using r by (simp add: execution_is_running_def)
  qed
qed

lemma execute_while_running:
  assumes "execution_is_running s" and "polls_and_thread_steps evs" and "\<not> start_called th"
  shows "python_runner (manager_state (run (execute s th) evs)) = python_runner s
         \<and> (start_called (thread (run (execute s th) evs)) \<longrightarrow>
              rejected (thread (run (execute s th) evs)))
         \<and> call_result (run (execute s th) evs) =
              (if Caller_polls \<in> set evs then Some (Inr ()) else None)"
proof -
  let ?c = "execute s th"
  have a: "is_running (python_runner (manager_state ?c))"
    using assms(1) by (simp add: execute_def execution_is_running_def)
  have b: "start_called (thread ?c) \<longrightarrow> rejected (thread ?c)"
    using assms(3) by (simp add: execute_def)
  have c: "\<not> returned ?c"
    by (simp add: execute_def)
  have m: "manager_state ?c = s"
    by (simp add: execute_def)
  from run_running [OF a b assms(2)] run_returned_running [OF a b assms(2) c] m
  show ?thesis by (simp add: call_result_def)
qed

text \<open>
  C7. Execution exclusivity: while a body runs and for every schedule of thread
  steps and polls, a second \<^verbatim>\<open>execute_from_code\<close> or \<^verbatim>\<open>execute_from_id\<close> leaves the
  runner (running flag, exit status, output) as it is; once the thread has called
  \<^verbatim>\<open>runner.start\<close>, that call has been refused with \<open>AlreadyRunning\<close> (nothing is
  queued); the refusal stays in the thread, and the caller returns without an
  error at its first poll.
\<close>

theorem second_start_rejected:
  assumes "execution_is_running s" and "polls_and_thread_steps evs"
  shows "python_runner (manager_state (run (execute_from_code s tmp code) evs)) = python_runner s
         \<and> (start_called (thread (run (execute_from_code s tmp code) evs)) \<longrightarrow>
              rejected (thread (run (execute_from_code s tmp code) evs)))
         \<and> call_result (run (execute_from_code s tmp code) evs) =
              (if Caller_polls \<in> set evs then Some (Inr ()) else None)
         \<and> python_runner (manager_state (run (execute_from_id s i) evs)) = python_runner s
         \<and> (start_called (thread (run (execute_from_id s i) evs)) \<longrightarrow>
              rejected (thread (run (execute_from_id s i) evs)))
         \<and> call_result (run (execute_from_id s i) evs) =
              (if Caller_polls \<in> set evs then Some (Inr ()) else None)"
  using execute_while_running [OF assms, of "With_pending tmp code"]
    execute_while_running [OF assms, of "Start_pending (Program_file (file_get_file_path (python_manager s) i))"]
  by (simp add: execute_from_code_def execute_from_id_def)

theorem second_start_rejected_witness:
  "execution_is_running running_manager
   \<and> python_runner (manager_state (run (execute_from_code running_manager ''tmp1'' ''print(7)'')
        [Thread_runs, Caller_polls, Thread_runs, Thread_runs])) =
       \<lparr>is_running = True, exit_status = None, output_text = ''hello''\<rparr>
   \<and> thread (run (execute_from_code running_manager ''tmp1'' ''print(7)'')
        [Thread_runs, Caller_polls, Thread_runs, Thread_runs]) = Ended (Some AlreadyRunning)
   \<and> call_result (run (execute_from_code running_manager ''tmp1'' ''print(7)'')
        [Thread_runs, Caller_polls, Thread_runs, Thread_runs]) = Some (Inr ())"
proof -
  have h: "execution_is_running running_manager"
    "polls_and_thread_steps [Thread_runs, Caller_polls, Thread_runs, Thread_runs]"
    by (simp_all add: running_manager_def execution_is_running_def polls_and_thread_steps_def)
  have t: "thread (run (execute_from_code running_manager ''tmp1'' ''print(7)'')
        [Thread_runs, Caller_polls, Thread_runs, Thread_runs]) = Ended (Some AlreadyRunning)"
    by (simp add: run_def execute_from_code_def execute_def running_manager_def start_at_def
        runner_start_def execution_is_running_def)
  from second_start_rejected [OF h, of "''tmp1''" "''print(7)''"] h(1) t
  show ?thesis by (simp add: running_manager_def)
qed

text \<open>
  C7 as first stated has the second \<^verbatim>\<open>execute_from_code\<close> call fail with
  \<open>AlreadyRunning\<close>. The call returns at its first poll, without an error.
\<close>

theorem second_start_counterexample:
  "execution_is_running running_manager
   \<and> call_result (run (execute_from_code running_manager ''tmp1'' ''print(7)'') [Caller_polls]) =
       Some (Inr ())
   \<and> call_result (run (execute_from_code running_manager ''tmp1'' ''print(7)'') [Caller_polls]) \<noteq>
       Some (Inl AlreadyRunning)"
  by (simp add: run_def execute_from_code_def execute_def running_manager_def call_result_def
      execution_is_running_def)

subsection \<open>Execution: confirmation of the start\<close>

text \<open>
  C8. Synchronous start confirmation, at an input where it fails: the runner has
  ended an earlier run with exit status 0. The caller of \<^verbatim>\<open>execute_from_id\<close> (and
  of \<^verbatim>\<open>execute_from_code\<close>) polls before the thread has run, reads the exit status
  of the earlier run and returns, while the new execution has neither begun nor
  ended: the thread has not called \<^verbatim>\<open>runner.start\<close> yet.
\<close>

theorem start_confirmation_stale_exit_status:
  "returned (run (execute_from_id finished_manager ''a'') [Caller_polls])
   \<and> \<not> start_called (thread (run (execute_from_id finished_manager ''a'') [Caller_polls]))
   \<and> thread (run (execute_from_id finished_manager ''a'') [Caller_polls]) =
       Start_pending (Program_file ''a'')
   \<and> python_runner (manager_state (run (execute_from_id finished_manager ''a'') [Caller_polls])) =
       \<lparr>is_running = False, exit_status = Some 0, output_text = ''hello''\<rparr>
   \<and> returned (run (execute_from_code finished_manager ''tmp1'' ''print(7)'') [Caller_polls])
   \<and> \<not> start_called (thread (run (execute_from_code finished_manager ''tmp1'' ''print(7)'')
          [Caller_polls]))"
  by (simp add: run_def execute_from_id_def execute_from_code_def execute_def
      finished_manager_def execution_is_running_def file_get_file_path_def)

text \<open>
  On a runner that has not run anything yet the loop does what its comment says:
  the caller returns only after the thread has called \<^verbatim>\<open>runner.start\<close>.
\<close>

lemma thread_step_calls_start:
  "start_called (fst (thread_step (Start_pending p) s))"
  "start_called (fst (thread_step (With_entered tmp) s))"
  by (simp_all add: split_def split: sum.splits)

lemma thread_step_fresh:
  assumes "\<not> start_called (fst (thread_step th s))"
  shows "\<not> start_called th \<and> python_runner (snd (thread_step th s)) = python_runner s"
proof (cases th)
  case (Start_pending p)
  then show ?thesis using assms thread_step_calls_start(1) [of p s] by simp
next
  case (With_entered tmp)
  then show ?thesis using assms thread_step_calls_start(2) [of tmp s] by simp
qed (use assms in \<open>simp_all split: if_splits\<close>)

lemma step_fresh:
  assumes "\<not> start_called (thread c) \<longrightarrow>
             \<not> returned c \<and> \<not> is_running (python_runner (manager_state c))
             \<and> exit_status (python_runner (manager_state c)) = None"
  shows "\<not> start_called (thread (step c e)) \<longrightarrow>
             \<not> returned (step c e) \<and> \<not> is_running (python_runner (manager_state (step c e)))
             \<and> exit_status (python_runner (manager_state (step c e))) = None"
proof (cases e)
  case Thread_runs
  show ?thesis
  proof
    assume "\<not> start_called (thread (step c e))"
    then have n: "\<not> start_called (fst (thread_step (thread c) (manager_state c)))"
      using Thread_runs by (simp add: step_thread_frame del: step.simps)
    from thread_step_fresh [OF n] assms
    show "\<not> returned (step c e) \<and> \<not> is_running (python_runner (manager_state (step c e)))
             \<and> exit_status (python_runner (manager_state (step c e))) = None"
      using Thread_runs by (simp add: split_def)
  qed
next
  case Caller_polls
  then show ?thesis
    using assms by (auto simp: execution_is_running_def)
next
  case (Process_exits code)
  then show ?thesis
    using assms by (auto simp: runner_process_exit_def)
qed

lemma first_run_confirmed:
  assumes "\<not> is_running (python_runner s)" and "exit_status (python_runner s) = None"
    and "\<not> start_called th"
  shows "returned (run (execute s th) evs) \<longrightarrow> start_called (thread (run (execute s th) evs))"
proof -
  have "\<not> start_called (thread (run (execute s th) evs)) \<longrightarrow>
          \<not> returned (run (execute s th) evs)
          \<and> \<not> is_running (python_runner (manager_state (run (execute s th) evs)))
          \<and> exit_status (python_runner (manager_state (run (execute s th) evs))) = None"
  proof (induction evs rule: rev_induct)
    case Nil
    then show ?case using assms by (simp add: execute_def)
  next
    case (snoc e evs)
    from step_fresh [OF snoc.IH, of e] show ?case by simp
  qed
  then show ?thesis by blast
qed

subsection \<open>Execution: the temporary body\<close>














end
